theory Spec2Isabelle
  imports
    Main
    "HOL-Library.Multiset"
    "HOL-Library.Word"
    "HOL-Library.List_Lexorder"
    "HOL-Library.FSet"
    "HOL-Library.Log_Nat"
begin

section \<open>Data model (types/compliance.ts)\<close>

datatype provider = AWS | AZURE | GCP

datatype severity = LOW | MEDIUM | HIGH | CRITICAL

datatype violation_status = OPEN | IN_PROGRESS | RESOLVED | ACCEPTED

text \<open>
  The field \<open>detected_at\<close> is a string that the table only ever reads through
  \<^verbatim>\<open>new Date(s).getTime()\<close>. The model keeps that number: the milliseconds since the
  epoch (an integer) for a string that parses, and \<open>Invalid_Date\<close> for the \<^verbatim>\<open>NaN\<close> the
  call gives for a string that does not.
\<close>

datatype js_time = Invalid_Date | Epoch_ms int

text \<open>
  A string is the sequence of its UTF-16 code units, and \<^verbatim>\<open><\<close> on two strings compares
  them code unit by code unit. The two names the table lowers and compares are kept that
  way; \<open>utf16\<close> gives the code units of a text of ASCII characters. The other strings are
  only carried along or tested for equality.
\<close>

type_synonym js_string = "16 word list"

definition utf16 :: "string \<Rightarrow> js_string" where
  "utf16 s = map (\<lambda>c. of_nat (of_char c)) s"

record CloudResource =
  res_id :: string
  res_name :: js_string
  res_type :: string
  res_provider :: provider
  res_region :: string
  res_account_id :: string
  res_configuration :: "(string \<times> string) list"
  res_tags :: "(string \<times> string) list"
  res_discovered_at :: string

record ComplianceFramework =
  fw_id :: string
  fw_name :: string
  fw_control_id :: string
  fw_control_description :: string

record PolicyViolation =
  violation_id :: string
  policy_name :: js_string
  resource :: CloudResource
  severity :: severity
  description :: string
  remediation :: string
  frameworks :: "ComplianceFramework list"
  detected_at :: js_time
  status :: violation_status

section \<open>Violations view (components/ViolationsTable.tsx)\<close>

subsection \<open>Sorting\<close>

datatype SortField = Detected_at | Severity | Policy_name | Resource_name | Status

datatype SortDirection = Asc | Desc

text \<open>\<^verbatim>\<open>const severityOrder = { CRITICAL: 4, HIGH: 3, MEDIUM: 2, LOW: 1 }\<close>\<close>

fun severityOrder :: "severity \<Rightarrow> int" where
  "severityOrder CRITICAL = 4"
| "severityOrder HIGH = 3"
| "severityOrder MEDIUM = 2"
| "severityOrder LOW = 1"

text \<open>
  The relational operator \<^verbatim>\<open><\<close> on two numbers, one of which may be \<^verbatim>\<open>NaN\<close>: every
  comparison with \<^verbatim>\<open>NaN\<close> is false.
\<close>

fun time_less :: "js_time \<Rightarrow> js_time \<Rightarrow> bool" where
  "time_less (Epoch_ms x) (Epoch_ms y) = (x < y)"
| "time_less _ _ = False"

text \<open>
  \<^verbatim>\<open>String.prototype.toLowerCase\<close> follows the case mappings of the Unicode character
  database, a table that is not in the repository. The comparator, and what is built on it,
  takes the function as the parameter \<open>toLowerCase\<close>.
\<close>

text \<open>The status is compared as the string the field holds.\<close>

fun status_string :: "violation_status \<Rightarrow> string" where
  "status_string OPEN = ''OPEN''"
| "status_string IN_PROGRESS = ''IN_PROGRESS''"
| "status_string RESOLVED = ''RESOLVED''"
| "status_string ACCEPTED = ''ACCEPTED''"

text \<open>
  The last three lines of the comparator, given the outcome of
  \<^verbatim>\<open>aValue < bValue\<close> and of \<^verbatim>\<open>aValue > bValue\<close>:
  \<^verbatim>\<open>
    if (aValue < bValue) return sortDirection === 'asc' ? -1 : 1;
    if (aValue > bValue) return sortDirection === 'asc' ? 1 : -1;
    return 0;
  \<close>
\<close>

definition by_direction :: "SortDirection \<Rightarrow> bool \<Rightarrow> bool \<Rightarrow> int" where
  "by_direction dir lt gt =
     (if lt then (if dir = Asc then - 1 else 1)
      else if gt then (if dir = Asc then 1 else - 1)
      else 0)"

text \<open>
  The comparator handed to \<^verbatim>\<open>sort\<close>. The \<^verbatim>\<open>switch\<close> picks the two values; strings
  compare by code unit, lexicographically (the order of \<open>List_Lexorder\<close> on lists of
  words). The \<^verbatim>\<open>default: return 0\<close> branch has no counterpart: \<open>SortField\<close> has five
  values.
\<close>

fun compareFn ::
  "(js_string \<Rightarrow> js_string) \<Rightarrow> SortField \<Rightarrow> SortDirection \<Rightarrow> PolicyViolation \<Rightarrow> PolicyViolation \<Rightarrow> int" where
  "compareFn toLowerCase Detected_at dir a b =
     by_direction dir (time_less (detected_at a) (detected_at b))
                      (time_less (detected_at b) (detected_at a))"
| "compareFn toLowerCase Severity dir a b =
     by_direction dir (severityOrder (severity a) < severityOrder (severity b))
                      (severityOrder (severity a) > severityOrder (severity b))"
| "compareFn toLowerCase Policy_name dir a b =
     by_direction dir (toLowerCase (policy_name a) < toLowerCase (policy_name b))
                      (toLowerCase (policy_name a) > toLowerCase (policy_name b))"
| "compareFn toLowerCase Resource_name dir a b =
     by_direction dir
       (toLowerCase (res_name (resource a)) < toLowerCase (res_name (resource b)))
       (toLowerCase (res_name (resource a)) > toLowerCase (res_name (resource b)))"
| "compareFn toLowerCase Status dir a b =
     by_direction dir (utf16 (status_string (status a)) < utf16 (status_string (status b)))
                      (utf16 (status_string (status a)) > utf16 (status_string (status b)))"

text \<open>
  \<^verbatim>\<open>Array.prototype.sort(comparefn)\<close>. ECMAScript asks for a stable sort: an element moves
  in front of another only when the comparator puts it strictly before. For a consistent
  comparator that fixes the result, whatever the engine's algorithm; the model computes it by
  insertion, the element \<open>x\<close> going past every \<open>y\<close> with \<open>c x y > 0\<close>. For a comparator
  that is not consistent ECMAScript leaves the order to the engine, and the order of the
  model is one an engine may give.
\<close>

fun insert_by :: "('a \<Rightarrow> 'a \<Rightarrow> int) \<Rightarrow> 'a \<Rightarrow> 'a list \<Rightarrow> 'a list" where
  "insert_by c x [] = [x]"
| "insert_by c x (y # ys) = (if c x y > 0 then y # insert_by c x ys else x # y # ys)"

definition Array_sort :: "('a \<Rightarrow> 'a \<Rightarrow> int) \<Rightarrow> 'a list \<Rightarrow> 'a list" where
  "Array_sort c xs = foldr (insert_by c) xs []"

text \<open>\<^verbatim>\<open>const sortedViolations = [...violations].sort((a, b) => ...)\<close>, as a value.\<close>

definition sortedViolations ::
  "(js_string \<Rightarrow> js_string) \<Rightarrow> SortField \<Rightarrow> SortDirection \<Rightarrow> PolicyViolation list
     \<Rightarrow> PolicyViolation list" where
  "sortedViolations toLowerCase sortField sortDirection violations =
     Array_sort (compareFn toLowerCase sortField sortDirection) violations"

text \<open>
  The same line with the arrays in a store, since \<^verbatim>\<open>sort\<close> works in place: a store is the
  list of the arrays allocated so far and a reference is an index into it. The spread
  \<^verbatim>\<open>[...violations]\<close> allocates a new array with the same elements, \<^verbatim>\<open>sort\<close> overwrites
  the array it is called on and returns the reference to it. A dangling reference is \<open>None\<close>.
\<close>

type_synonym 'a store = "'a list list"

definition spread :: "nat \<Rightarrow> 'a store \<Rightarrow> (nat \<times> 'a store) option" where
  "spread r h = (if r < length h then Some (length h, h @ [h ! r]) else None)"

definition sort_in_place :: "('a \<Rightarrow> 'a \<Rightarrow> int) \<Rightarrow> nat \<Rightarrow> 'a store \<Rightarrow> (nat \<times> 'a store) option" where
  "sort_in_place c r h = (if r < length h then Some (r, h[r := Array_sort c (h ! r)]) else None)"

definition sortedViolations_store ::
  "(js_string \<Rightarrow> js_string) \<Rightarrow> SortField \<Rightarrow> SortDirection \<Rightarrow> nat \<Rightarrow> PolicyViolation store
     \<Rightarrow> (nat \<times> PolicyViolation store) option" where
  "sortedViolations_store toLowerCase sortField sortDirection violations h =
     (case spread violations h of
        None \<Rightarrow> None
      | Some (copy, h') \<Rightarrow> sort_in_place (compareFn toLowerCase sortField sortDirection) copy h')"





text \<open>\<^verbatim>\<open>handleSort\<close>: a click on the active column flips the direction, a click on another
  column selects it, descending.\<close>

definition handleSort :: "SortField \<times> SortDirection \<Rightarrow> SortField \<Rightarrow> SortField \<times> SortDirection" where
  "handleSort st field =
     (if fst st = field then (fst st, if snd st = Asc then Desc else Asc) else (field, Desc))"

subsection \<open>Selection\<close>

text \<open>
  The header checkbox. It is drawn only when the list is not empty (the component returns
  the empty-state panel before the table otherwise). Its \<^verbatim>\<open>checked\<close> attribute is
  \<^verbatim>\<open>selectedViolations.size === violations.length && violations.length > 0\<close>; a click
  delivers the opposite of what is drawn as \<^verbatim>\<open>e.target.checked\<close>.
\<close>

type_synonym selection = "string fset"




text \<open>The checkbox of one row: \<^verbatim>\<open>add\<close> when it becomes checked, \<^verbatim>\<open>delete\<close> otherwise.\<close>

definition toggle_one :: "string \<Rightarrow> selection \<Rightarrow> selection" where
  "toggle_one vid selectedViolations =
     (if vid |\<notin>| selectedViolations then finsert vid selectedViolations
      else selectedViolations |-| {|vid|})"


subsection \<open>Status control of a row\<close>

text \<open>
  \<^verbatim>\<open>{violation.status === 'OPEN' && (<select ...>)}\<close>: the control with the values of its
  four options, the first being the placeholder. \<^verbatim>\<open>onChange\<close> calls
  \<^verbatim>\<open>updateViolationStatus\<close> with the chosen value unless it is the empty string.
\<close>

definition status_options :: "string list" where
  "status_options = ['''', ''IN_PROGRESS'', ''RESOLVED'', ''ACCEPTED'']"

definition status_control :: "PolicyViolation \<Rightarrow> string list option" where
  "status_control violation = (if status violation = OPEN then Some status_options else None)"

definition status_onChange :: "PolicyViolation \<Rightarrow> string \<Rightarrow> (string \<times> string) option" where
  "status_onChange violation v = (if v \<noteq> '''' then Some (violation_id violation, v) else None)"

text \<open>The statuses a row lets the operator move to: the values that reach the update call.\<close>

definition status_targets :: "PolicyViolation \<Rightarrow> string set" where
  "status_targets violation =
     (case status_control violation of
        None \<Rightarrow> {}
      | Some opts \<Rightarrow> {v \<in> set opts. status_onChange violation v \<noteq> None})"

section \<open>API client (services/complianceApi.ts)\<close>

subsection \<open>Values\<close>

text \<open>
  What a response body can be once axios has parsed it, and what a property read can give:
  the JSON values and \<^verbatim>\<open>undefined\<close>. A number is the rational its double stands for; an
  object lists its properties, each name once.
\<close>

datatype js_value =
  Undefined
| Null
| Boolean bool
| Number rat
| String js_string
| Array "js_value list"
| Object "(js_string \<times> js_value) list"

text \<open>The values that count as false in a condition and on the left of \<^verbatim>\<open>||\<close>.\<close>

fun truthy :: "js_value \<Rightarrow> bool" where
  "truthy Undefined = False"
| "truthy Null = False"
| "truthy (Boolean b) = b"
| "truthy (Number n) = (n \<noteq> 0)"
| "truthy (String s) = (s \<noteq> [])"
| "truthy (Array xs) = True"
| "truthy (Object fs) = True"

definition js_or :: "js_value \<Rightarrow> js_value \<Rightarrow> js_value" where
  "js_or a b = (if truthy a then a else b)"

text \<open>
  Reading a property: of \<^verbatim>\<open>null\<close> or \<^verbatim>\<open>undefined\<close> it throws a \<^verbatim>\<open>TypeError\<close>; of an object
  it gives the property, or \<^verbatim>\<open>undefined\<close> when the object has none of that name; a string,
  a number, a boolean or an array has none of the names the client reads (\<^verbatim>\<open>code\<close>,
  \<^verbatim>\<open>message\<close>, \<^verbatim>\<open>details\<close>, \<^verbatim>\<open>request_id\<close>, \<^verbatim>\<open>data\<close>).
\<close>

datatype js_error = TypeError

fun nullish :: "js_value \<Rightarrow> bool" where
  "nullish Undefined = True"
| "nullish Null = True"
| "nullish _ = False"

fun get :: "js_value \<Rightarrow> js_string \<Rightarrow> js_value" where
  "get (Object fs) name = (case map_of fs name of None \<Rightarrow> Undefined | Some v \<Rightarrow> v)"
| "get _ name = Undefined"

definition property :: "js_value \<Rightarrow> js_string \<Rightarrow> js_error + js_value" where
  "property v name = (if nullish v then Inl TypeError else Inr (get v name))"

subsection \<open>Errors\<close>

text \<open>
  The fields of \<open>ApiError\<close> are typed as strings, but the function fills them from a body
  read \<^verbatim>\<open>as any\<close>: they hold whatever value arrives.
\<close>

record ApiError =
  code :: js_value
  message :: js_value
  details :: js_value
  request_id :: js_value

text \<open>
  An \<^verbatim>\<open>AxiosError\<close>: the response (status and body) when the server answered, whether a
  request was sent, and the message.
\<close>

record AxiosError =
  err_response :: "(nat \<times> js_value) option"
  err_request :: bool
  err_message :: js_string

text \<open>The decimal digits of a number, for the template \<^verbatim>\<open>`HTTP_${error.response.status}`\<close>.\<close>

fun show_nat :: "nat \<Rightarrow> string" where
  "show_nat n =
     (if n < 10 then [char_of (48 + n)] else show_nat (n div 10) @ [char_of (48 + n mod 10)])"

declare show_nat.simps [simp del]

text \<open>
  \<^verbatim>\<open>
    if (error.response) {
      const responseData = error.response.data as any;
      return {
        code: responseData.code || `HTTP_${error.response.status}`,
        message: responseData.message || error.message,
        details: responseData.details,
        request_id: responseData.request_id || 'unknown'
      };
    } else if (error.request) { ... } else { ... }
  \<close>
  The four reads are of the same value, so either the first one throws or none does.
\<close>

definition handleApiError :: "AxiosError \<Rightarrow> js_error + ApiError" where
  "handleApiError error =
     (case err_response error of
        Some (http_status, responseData) \<Rightarrow>
          if nullish responseData then Inl TypeError
          else
            Inr \<lparr>code = js_or (get responseData (utf16 ''code''))
                          (String (utf16 (''HTTP_'' @ show_nat http_status))),
                 message = js_or (get responseData (utf16 ''message'')) (String (err_message error)),
                 details = get responseData (utf16 ''details''),
                 request_id = js_or (get responseData (utf16 ''request_id''))
                                (String (utf16 ''unknown''))\<rparr>
      | None \<Rightarrow>
          if err_request error then
            Inr \<lparr>code = String (utf16 ''NETWORK_ERROR''),
                 message = String (utf16 ''Unable to connect to compliance service''),
                 details = Undefined, request_id = String (utf16 ''unknown'')\<rparr>
          else
            Inr \<lparr>code = String (utf16 ''REQUEST_ERROR''), message = String (err_message error),
                 details = Undefined, request_id = String (utf16 ''unknown'')\<rparr>)"

subsection \<open>Requests and responses\<close>

datatype http_method = GET | POST | PATCH

record scanRequest =
  sr_provider :: provider
  sr_resource_types :: "string list"
  sr_policy_bundle :: string
  sr_compliance_frameworks :: "string list"

datatype request_body = No_body | Scan_body scanRequest | Status_body string "string option"

record request =
  req_method :: http_method
  req_url :: string
  req_params :: "(string \<times> string) list"
  req_body :: request_body

text \<open>
  A response that axios resolves with: its status and its parsed body. The type parameter
  of \<^verbatim>\<open>get<ApiResponse<T>>\<close> is a promise of the backend's, not a check: the body is
  whatever arrived.
\<close>

record AxiosResponse =
  resp_status :: nat
  resp_data :: js_value

text \<open>
  The network is a parameter: what sending a request gives, a rejection with an
  \<^verbatim>\<open>AxiosError\<close> or a response. The client adds the response interceptor, which rejects
  with \<^verbatim>\<open>this.handleApiError(error)\<close>; when that call throws, the promise is rejected with
  what it threw. A settled promise is a sum: \<open>Inl\<close> the rejection, \<open>Inr\<close> the value.
\<close>

type_synonym transport = "request \<Rightarrow> AxiosError + AxiosResponse"

type_synonym rejection = "js_error + ApiError"

definition apiClient :: "transport \<Rightarrow> request \<Rightarrow> rejection + AxiosResponse" where
  "apiClient http r = (case http r of Inl error \<Rightarrow> Inl (handleApiError error) | Inr response \<Rightarrow> Inr response)"

definition get_req :: "string \<Rightarrow> (string \<times> string) list \<Rightarrow> request" where
  "get_req url params = \<lparr>req_method = GET, req_url = url, req_params = params, req_body = No_body\<rparr>"

subsection \<open>Operations\<close>


text \<open>
  The other operations await the call and, but for the status update, return
  \<^verbatim>\<open>response.data.data\<close>: the read of \<^verbatim>\<open>data\<close> on the body throws when the body is
  \<^verbatim>\<open>null\<close> or \<^verbatim>\<open>undefined\<close>, and the operation then rejects with the \<^verbatim>\<open>TypeError\<close>.
\<close>

definition response_data_data :: "rejection + AxiosResponse \<Rightarrow> rejection + js_value" where
  "response_data_data settled =
     (case settled of
        Inl error \<Rightarrow> Inl error
      | Inr response \<Rightarrow>
          (case property (resp_data response) (utf16 ''data'') of
             Inl thrown \<Rightarrow> Inl (Inl thrown)
           | Inr payload \<Rightarrow> Inr payload))"



definition getScanStatus_request :: "string \<Rightarrow> request" where
  "getScanStatus_request scanId = get_req (''/scan/'' @ scanId @ ''/status'') []"

definition getScanStatus :: "transport \<Rightarrow> string \<Rightarrow> rejection + js_value" where
  "getScanStatus http scanId = response_data_data (apiClient http (getScanStatus_request scanId))"



















section \<open>Scan progress view (components/ScanProgress.tsx)\<close>

subsection \<open>Numbers\<close>

text \<open>
  A number is an IEEE 754 double: not-a-number, an infinity with its sign (\<open>True\<close> for the
  positive one), or a finite double, given as the rational it stands for. There is one zero
  here: the sign of a zero shows only in a division by it, and the component divides by a
  total that is greater than 0.
\<close>

datatype js_number = NaN | Infinity bool | Finite rat

text \<open>
  An arithmetic operation gives its exact result rounded to the nearest double, a tie going
  to the even significand. \<open>exponent x\<close> is the \<open>e\<close> with \<^verbatim>\<open>2^e <= x < 2^(e+1)\<close>, for a
  positive \<open>x\<close>. \<open>to_double\<close> rounds to a multiple of the spacing of the doubles around
  \<open>x\<close>: 53 significant bits, and \<^verbatim>\<open>2^-1074\<close> below \<^verbatim>\<open>2^-1022\<close>, where the doubles are
  subnormal. \<open>number\<close> is the double that results: an infinity when the rounded magnitude
  reaches \<^verbatim>\<open>2^1024\<close>. It is also the double that \<^verbatim>\<open>JSON.parse\<close> gives for a number in a
  response.
\<close>

definition exponent :: "rat \<Rightarrow> int" where
  "exponent x =
     (let (p, q) = quotient_of x; d = bitlen p - bitlen q
      in if 2 powi d \<le> x then d else d - 1)"

definition round_even :: "rat \<Rightarrow> int" where
  "round_even y =
     (let f = \<lfloor>y\<rfloor>; r = y - of_int f
      in if r < 1 / 2 then f else if 1 / 2 < r then f + 1 else if even f then f else f + 1)"

definition to_double :: "rat \<Rightarrow> rat" where
  "to_double x =
     (if x = 0 then 0
      else let u = 2 powi (max (exponent \<bar>x\<bar>) (- 1022) - 52)
           in sgn x * of_int (round_even (\<bar>x\<bar> / u)) * u)"

definition number :: "rat \<Rightarrow> js_number" where
  "number x = (if 2 ^ 1024 \<le> \<bar>to_double x\<bar> then Infinity (0 < x) else Finite (to_double x))"

text \<open>\<^verbatim>\<open>a > b\<close>, \<^verbatim>\<open>a / b\<close> and \<^verbatim>\<open>a * b\<close>.\<close>

fun js_greater :: "js_number \<Rightarrow> js_number \<Rightarrow> bool" where
  "js_greater NaN b = False"
| "js_greater a NaN = False"
| "js_greater (Infinity s) (Infinity s') = (s \<and> \<not> s')"
| "js_greater (Infinity s) (Finite b) = s"
| "js_greater (Finite a) (Infinity s') = (\<not> s')"
| "js_greater (Finite a) (Finite b) = (b < a)"

fun js_div :: "js_number \<Rightarrow> js_number \<Rightarrow> js_number" where
  "js_div NaN b = NaN"
| "js_div a NaN = NaN"
| "js_div (Infinity s) (Infinity s') = NaN"
| "js_div (Infinity s) (Finite b) = Infinity (if b < 0 then \<not> s else s)"
| "js_div (Finite a) (Infinity s') = Finite 0"
| "js_div (Finite a) (Finite b) =
     (if b = 0 then if a = 0 then NaN else Infinity (0 < a) else number (a / b))"

fun js_mul :: "js_number \<Rightarrow> js_number \<Rightarrow> js_number" where
  "js_mul NaN b = NaN"
| "js_mul a NaN = NaN"
| "js_mul (Infinity s) (Infinity s') = Infinity (s = s')"
| "js_mul (Infinity s) (Finite b) = (if b = 0 then NaN else Infinity (if b < 0 then \<not> s else s))"
| "js_mul (Finite a) (Infinity s') = (if a = 0 then NaN else Infinity (if a < 0 then \<not> s' else s'))"
| "js_mul (Finite a) (Finite b) = number (a * b)"

text \<open>\<^verbatim>\<open>Math.round\<close>: the nearest integer, a tie going up.\<close>

fun Math_round :: "js_number \<Rightarrow> js_number" where
  "Math_round NaN = NaN"
| "Math_round (Infinity s) = Infinity s"
| "Math_round (Finite x) = Finite (of_int \<lfloor>x + 1 / 2\<rfloor>)"

subsection \<open>Scans\<close>

datatype scan_status = running | completed | failed

record severity_counts =
  count_LOW :: nat
  count_MEDIUM :: nat
  count_HIGH :: nat
  count_CRITICAL :: nat

text \<open>The two counts that the progress bar reads are numbers as the component holds
  them; the other counts are not read here.\<close>

record ComplianceScanResult =
  scan_id :: string
  scan_status :: scan_status
  scan_provider :: provider
  total_resources :: js_number
  scanned_resources :: js_number
  violations_count :: nat
  violations_by_severity :: severity_counts
  scan_violations :: "PolicyViolation list"
  start_time :: string
  end_time :: "string option"
  duration :: "nat option"

subsection \<open>Progress percentage\<close>

text \<open>
  \<^verbatim>\<open>
    const progressPercentage = scan.total_resources > 0
      ? Math.round((scan.scanned_resources / scan.total_resources) * 100)
      : 0;
  \<close>
\<close>

definition progressPercentage :: "ComplianceScanResult \<Rightarrow> js_number" where
  "progressPercentage s =
     (if js_greater (total_resources s) (Finite 0)
      then Math_round (js_mul (js_div (scanned_resources s) (total_resources s)) (Finite 100))
      else Finite 0)"


subsection \<open>Polling\<close>

text \<open>
  What the component does to the outside: a status request, sent by the interval timer or
  by the Refresh button, and a call of the \<^verbatim>\<open>onScanComplete\<close> callback.
\<close>

datatype origin = Timer | Button

datatype action = GetScanStatus origin string | OnScanComplete

text \<open>
  The state of one mounted component: the two \<^verbatim>\<open>useState\<close> cells, the interval the
  effect has set (its period in milliseconds, \<open>None\<close> when there is none), the number of
  status requests that have not settled yet, and the actions so far, oldest first.
\<close>

record ScanProgress =
  scan :: ComplianceScanResult
  loading :: bool
  interval :: "nat option"
  pending :: nat
  actions :: "action list"

text \<open>
  \<^verbatim>\<open>
    useEffect(() => {
      if (scan.status === 'running') {
        const interval = setInterval(updateScanStatus, 5000);
        return () => clearInterval(interval);
      }
    }, [scan.status, scan.scan_id]);
  \<close>
  After a render in which a dependency differs from the previous render, the cleanup clears
  the old interval and the effect runs again. The model takes the render and the effects
  that follow it as one step.
\<close>

definition polling_effect :: "ComplianceScanResult \<Rightarrow> nat option" where
  "polling_effect s = (if scan_status s = running then Some 5000 else None)"

definition commit :: "ComplianceScanResult \<Rightarrow> ScanProgress \<Rightarrow> ScanProgress" where
  "commit previous st =
     (if scan_status (scan st) = scan_status previous \<and> scan_id (scan st) = scan_id previous
      then st
      else st\<lparr>interval := polling_effect (scan st)\<rparr>)"

definition mount :: "ComplianceScanResult \<Rightarrow> ScanProgress" where
  "mount initialScan =
     \<lparr>scan = initialScan, loading = False, interval = polling_effect initialScan,
      pending = 0, actions = []\<rparr>"

text \<open>
  \<^verbatim>\<open>updateScanStatus\<close> up to its \<^verbatim>\<open>await\<close>, and its continuation once the promise of
  \<^verbatim>\<open>complianceApi.getScanStatus(scan.scan_id)\<close> has settled: \<open>Inr\<close> the scan it resolved
  with (the \<^verbatim>\<open>try\<close> block goes on), \<open>Inl\<close> the rejection (the \<^verbatim>\<open>catch\<close> block logs it);
  \<^verbatim>\<open>finally\<close> clears \<^verbatim>\<open>loading\<close> in both cases. The flag \<open>cb\<close> tells whether the parent
  passed \<^verbatim>\<open>onScanComplete\<close>.
\<close>

definition updateScanStatus_call :: "origin \<Rightarrow> ScanProgress \<Rightarrow> ScanProgress" where
  "updateScanStatus_call who st =
     st\<lparr>loading := True, pending := Suc (pending st),
        actions := actions st @ [GetScanStatus who (scan_id (scan st))]\<rparr>"

definition updateScanStatus_settled ::
  "bool \<Rightarrow> rejection + ComplianceScanResult \<Rightarrow> ScanProgress \<Rightarrow> ScanProgress" where
  "updateScanStatus_settled cb settled st =
     (case settled of
        Inr updatedScan \<Rightarrow>
          commit (scan st)
            (st\<lparr>scan := updatedScan, loading := False, pending := pending st - 1,
                actions := actions st @
                  (if scan_status updatedScan = completed \<and> cb then [OnScanComplete] else [])\<rparr>)
      | Inl error \<Rightarrow> st\<lparr>loading := False, pending := pending st - 1\<rparr>)"

text \<open>
  The events of the event loop: the interval fires (only while one is set), the operator
  clicks Refresh (the button is disabled while \<^verbatim>\<open>loading\<close>), a pending status request
  settles. \<open>None\<close> is an event that cannot happen in the state.
\<close>

datatype event = Tick | Click_refresh | Settled "rejection + ComplianceScanResult"

fun step :: "bool \<Rightarrow> ScanProgress \<Rightarrow> event \<Rightarrow> ScanProgress option" where
  "step cb st Tick =
     (if interval st = None then None else Some (updateScanStatus_call Timer st))"
| "step cb st Click_refresh =
     (if loading st then None else Some (updateScanStatus_call Button st))"
| "step cb st (Settled settled) =
     (if pending st = 0 then None else Some (updateScanStatus_settled cb settled st))"

fun run :: "bool \<Rightarrow> ScanProgress \<Rightarrow> event list \<Rightarrow> ScanProgress option" where
  "run cb st [] = Some st"
| "run cb st (e # es) = (case step cb st e of None \<Rightarrow> None | Some st' \<Rightarrow> run cb st' es)"

text \<open>Automatic polls among the actions, and the responses by what they report.\<close>

fun is_poll :: "action \<Rightarrow> bool" where
  "is_poll (GetScanStatus Timer _) = True"
| "is_poll _ = False"

fun reports :: "scan_status \<Rightarrow> event \<Rightarrow> bool" where
  "reports s (Settled (Inr updatedScan)) = (scan_status updatedScan = s)"
| "reports s _ = False"

text \<open>The interval that is set is the one the effect sets for the scan on display.\<close>

definition armed :: "ScanProgress \<Rightarrow> bool" where
  "armed st = (interval st = polling_effect (scan st))"

section \<open>Sample data\<close>

text \<open>A lowering function for the samples: it agrees with \<^verbatim>\<open>toLowerCase\<close> on ASCII text.\<close>

definition ascii_lower :: "js_string \<Rightarrow> js_string" where
  "ascii_lower s = map (\<lambda>u. if 65 \<le> u \<and> u \<le> 90 then u + 32 else u) s"

definition sample_resource :: CloudResource where
  "sample_resource =
     \<lparr>res_id = ''arn:aws:s3:::ledger'', res_name = utf16 ''ledger'', res_type = ''S3_BUCKET'',
      res_provider = AWS, res_region = ''eu-west-1'', res_account_id = ''1234'',
      res_configuration = [], res_tags = [], res_discovered_at = ''2024-01-01T00:00:00Z''\<rparr>"

definition sample_violation :: "string \<Rightarrow> string \<Rightarrow> severity \<Rightarrow> js_time \<Rightarrow> violation_status \<Rightarrow> PolicyViolation" where
  "sample_violation vid pol sev t st =
     \<lparr>violation_id = vid, policy_name = utf16 pol, resource = sample_resource, severity = sev,
      description = ''bucket is not encrypted'', remediation = ''enable encryption'',
      frameworks = [], detected_at = t, status = st\<rparr>"

definition four_levels :: "PolicyViolation list" where
  "four_levels =
     [sample_violation ''v-1'' ''encryption'' MEDIUM (Epoch_ms 1700000000000) OPEN,
      sample_violation ''v-2'' ''logging'' LOW (Epoch_ms 1700000000000) OPEN,
      sample_violation ''v-3'' ''public-access'' CRITICAL (Epoch_ms 1700000000000) RESOLVED,
      sample_violation ''v-4'' ''Versioning'' HIGH (Epoch_ms 1700000000000) OPEN]"

definition low_critical_high_rows :: "PolicyViolation list" where
  "low_critical_high_rows =
     [sample_violation ''v-1'' ''logging'' LOW (Epoch_ms 1700000000000) OPEN,
      sample_violation ''v-2'' ''public-access'' CRITICAL (Epoch_ms 1700000000000) OPEN,
      sample_violation ''v-3'' ''encryption'' HIGH (Epoch_ms 1700000000000) OPEN]"

definition three_policies :: "PolicyViolation list" where
  "three_policies =
     [sample_violation ''v-1'' ''logging'' LOW (Epoch_ms 1700000000000) OPEN,
      sample_violation ''v-2'' ''Encryption'' HIGH (Epoch_ms 1700000300000) IN_PROGRESS,
      sample_violation ''v-3'' ''versioning'' HIGH (Epoch_ms 1700000200000) RESOLVED]"


definition fastapi_not_found :: AxiosError where
  "fastapi_not_found =
     \<lparr>err_response = Some (404, Object [(utf16 ''detail'', String (utf16 ''Not Found''))]),
      err_request = True,
      err_message = utf16 ''Request failed with status code 404''\<rparr>"

definition coded_error :: AxiosError where
  "coded_error =
     \<lparr>err_response = Some (422, Object [(utf16 ''code'', String (utf16 ''INVALID_PROVIDER'')),
                                         (utf16 ''message'', String (utf16 ''unknown provider'')),
                                         (utf16 ''request_id'', String (utf16 ''req-7''))]),
      err_request = True,
      err_message = utf16 ''Request failed with status code 422''\<rparr>"

definition numbered_error :: AxiosError where
  "numbered_error =
     \<lparr>err_response = Some (500, Object [(utf16 ''code'', Number 42), (utf16 ''message'', String [])]),
      err_request = True,
      err_message = utf16 ''Request failed with status code 500''\<rparr>"

definition bad_config :: AxiosError where
  "bad_config = \<lparr>err_response = None, err_request = False, err_message = utf16 ''Invalid URL''\<rparr>"

definition network_down :: AxiosError where
  "network_down = \<lparr>err_response = None, err_request = True, err_message = utf16 ''Network Error''\<rparr>"


definition sample_scan :: "scan_status \<Rightarrow> nat \<Rightarrow> nat \<Rightarrow> ComplianceScanResult" where
  "sample_scan st n_scanned n_total =
     \<lparr>scan_id = ''scan-1'', scan_status = st, scan_provider = GCP,
      total_resources = Finite (of_nat n_total), scanned_resources = Finite (of_nat n_scanned),
      violations_count = 0,
      violations_by_severity = \<lparr>count_LOW = 0, count_MEDIUM = 0, count_HIGH = 0, count_CRITICAL = 0\<rparr>,
      scan_violations = [], start_time = ''2024-01-01T00:00:00Z'', end_time = None,
      duration = None\<rparr>"

section \<open>Properties of the violations view\<close>

lemma mset_insert_by: "mset (insert_by c x ys) = add_mset x (mset ys)"
  by (induction ys) auto

lemma mset_Array_sort: "mset (Array_sort c xs) = mset xs"
  by (induction xs) (auto simp: Array_sort_def mset_insert_by)

lemma set_insert_by: "set (insert_by c x ys) = insert x (set ys)"
  by (induction ys) auto


lemma Array_sort_Cons: "Array_sort c (x # xs) = insert_by c x (Array_sort c xs)"
  by (simp add: Array_sort_def)

lemma Array_sort_Nil: "Array_sort c [] = []"
  by (simp add: Array_sort_def)

text \<open>Sortedness for a comparator whose non-strict side is total and transitive.\<close>

lemma sorted_insert_by:
  assumes tot: "\<And>a b. c a b > 0 \<Longrightarrow> c b a \<le> 0"
    and trans: "\<And>a b d. c a b \<le> 0 \<Longrightarrow> c b d \<le> 0 \<Longrightarrow> c a d \<le> 0"
  shows "sorted_wrt (\<lambda>a b. c a b \<le> 0) ys \<Longrightarrow> sorted_wrt (\<lambda>a b. c a b \<le> 0) (insert_by c x ys)"
proof (induction ys)
  case Nil
  show ?case by simp
next
  case (Cons y ys)
  show ?case
  proof (cases "c x y > 0")
    case True
    with Cons tot [of x y] show ?thesis
      by (auto simp: set_insert_by)
  next
    case False
    then have "c x y \<le> 0" by simp
    with Cons.prems trans [of x y] show ?thesis
      using False by auto
  qed
qed

lemma sorted_Array_sort:
  assumes tot: "\<And>a b. c a b > 0 \<Longrightarrow> c b a \<le> 0"
    and trans: "\<And>a b d. c a b \<le> 0 \<Longrightarrow> c b d \<le> 0 \<Longrightarrow> c a d \<le> 0"
  shows "sorted_wrt (\<lambda>a b. c a b \<le> 0) (Array_sort c xs)"
proof (induction xs)
  case Nil
  show ?case by (simp add: Array_sort_Nil)
next
  case (Cons x xs)
  then show ?case
    using sorted_insert_by [of c, OF tot trans] by (simp add: Array_sort_Cons)
qed

















lemma compareFn_Severity_Desc_le:
  "compareFn lc Severity Desc a b \<le> 0 \<longleftrightarrow> severityOrder (severity b) \<le> severityOrder (severity a)"
  by (auto simp: by_direction_def)

lemma sorted_Severity_Desc:
  "sorted_wrt (\<lambda>a b. severityOrder (severity b) \<le> severityOrder (severity a))
     (sortedViolations lc Severity Desc vs)"
proof -
  have "sorted_wrt (\<lambda>a b. compareFn lc Severity Desc a b \<le> 0)
          (Array_sort (compareFn lc Severity Desc) vs)"
    by (rule sorted_Array_sort) (auto simp: by_direction_def split: if_splits)
  then show ?thesis
    by (simp only: compareFn_Severity_Desc_le sortedViolations_def)
qed

lemma ranks_Severity_Desc:
  "map (\<lambda>v. severityOrder (severity v)) (sortedViolations lc Severity Desc vs)
     = rev (sort (map (\<lambda>v. severityOrder (severity v)) vs))"
proof -
  let ?k = "\<lambda>v. severityOrder (severity v)"
  let ?ys = "sortedViolations lc Severity Desc vs"
  have "sorted_wrt (\<lambda>x y. y \<le> x) (map ?k ?ys)"
    using sorted_Severity_Desc [of lc vs] by (simp add: sorted_wrt_map)
  then have "sorted (rev (map ?k ?ys))"
    by (simp add: sorted_wrt_rev)
  moreover have "mset (rev (map ?k ?ys)) = mset (map ?k vs)"
    by (simp add: sortedViolations_def mset_Array_sort)
  ultimately have "sort (map ?k vs) = rev (map ?k ?ys)"
    by (rule properties_for_sort [rotated])
  then show ?thesis by (simp add: rev_swap)
qed

lemma rank_4: "severityOrder x = 4 \<longleftrightarrow> x = CRITICAL" by (cases x) simp_all
lemma rank_3: "severityOrder x = 3 \<longleftrightarrow> x = HIGH" by (cases x) simp_all
lemma rank_2: "severityOrder x = 2 \<longleftrightarrow> x = MEDIUM" by (cases x) simp_all
lemma rank_1: "severityOrder x = 1 \<longleftrightarrow> x = LOW" by (cases x) simp_all

lemma one_of_each:
  assumes "mset (map severity vs) = {#LOW, MEDIUM, HIGH, CRITICAL#}"
  shows "map severity (sortedViolations lc Severity Desc vs) = [CRITICAL, HIGH, MEDIUM, LOW]"
proof -
  let ?k = "\<lambda>v. severityOrder (severity v)"
  have "mset (map ?k vs) = image_mset severityOrder (mset (map severity vs))"
    by (simp add: multiset.map_comp comp_def)
  also have "\<dots> = mset [1, 2, 3, 4]"
    using assms by simp
  finally have "sort (map ?k vs) = [1, 2, 3, 4]"
    by (intro properties_for_sort) simp_all
  then have "map severityOrder (map severity (sortedViolations lc Severity Desc vs)) = [4, 3, 2, 1]"
    using ranks_Severity_Desc [of lc vs] by (simp add: comp_def)
  then show ?thesis
    by (auto simp: map_eq_Cons_conv rank_4 rank_3 rank_2 rank_1)
qed

lemma low_critical_high:
  assumes "map severity vs = [LOW, CRITICAL, HIGH]"
  shows "map severity (sortedViolations lc Severity Desc vs) = [CRITICAL, HIGH, LOW]"
proof -
  let ?k = "\<lambda>v. severityOrder (severity v)"
  have "map ?k vs = map severityOrder (map severity vs)"
    by (simp add: comp_def)
  then have "map ?k vs = [1, 4, 3]"
    by (simp add: assms)
  then have "map severityOrder (map severity (sortedViolations lc Severity Desc vs)) = [4, 3, 1]"
    using ranks_Severity_Desc [of lc vs] by (simp add: comp_def)
  then show ?thesis
    by (auto simp: map_eq_Cons_conv rank_4 rank_3 rank_2 rank_1)
qed

text \<open>
  Claim C1. Sorting by severity, descending, gives a permutation of the rows in which the
  rank never rises from one row to the next, with the ranks CRITICAL 4, HIGH 3, MEDIUM 2,
  LOW 1. A list with exactly one row of each level comes out as CRITICAL, HIGH, MEDIUM, LOW,
  and the three rows LOW, CRITICAL, HIGH come out as CRITICAL, HIGH, LOW.
\<close>

theorem severity_descending:
  "mset (sortedViolations lc Severity Desc vs) = mset vs
   \<and> sorted_wrt (\<lambda>a b. severityOrder (severity a) \<ge> severityOrder (severity b))
        (sortedViolations lc Severity Desc vs)
   \<and> map severityOrder [CRITICAL, HIGH, MEDIUM, LOW] = [4, 3, 2, 1]
   \<and> (mset (map severity vs) = {#LOW, MEDIUM, HIGH, CRITICAL#}
        \<longrightarrow> map severity (sortedViolations lc Severity Desc vs) = [CRITICAL, HIGH, MEDIUM, LOW])
   \<and> (map severity vs = [LOW, CRITICAL, HIGH]
        \<longrightarrow> map severity (sortedViolations lc Severity Desc vs) = [CRITICAL, HIGH, LOW])"
  using sorted_Severity_Desc [of lc vs] one_of_each [of vs lc] low_critical_high [of vs lc]
  by (simp add: sortedViolations_def mset_Array_sort)

text \<open>
  Four rows, one of each level, in the order MEDIUM, LOW, CRITICAL, HIGH; and three rows
  LOW, CRITICAL, HIGH detected at the same time.
\<close>

theorem severity_descending_witness:
  "mset (map severity four_levels) = {#LOW, MEDIUM, HIGH, CRITICAL#}
   \<and> map severity (sortedViolations ascii_lower Severity Desc four_levels) = [CRITICAL, HIGH, MEDIUM, LOW]
   \<and> map violation_id (sortedViolations ascii_lower Severity Desc four_levels) = [''v-3'', ''v-4'', ''v-1'', ''v-2'']
   \<and> map severity low_critical_high_rows = [LOW, CRITICAL, HIGH]
   \<and> map severity (sortedViolations ascii_lower Severity Desc low_critical_high_rows) = [CRITICAL, HIGH, LOW]
   \<and> map violation_id (sortedViolations ascii_lower Severity Desc low_critical_high_rows) = [''v-2'', ''v-3'', ''v-1'']"
proof -
  have h: "mset (map severity four_levels) = {#LOW, MEDIUM, HIGH, CRITICAL#}"
    by (simp add: four_levels_def sample_violation_def)
  have ids: "map violation_id (sortedViolations ascii_lower Severity Desc four_levels) = [''v-3'', ''v-4'', ''v-1'', ''v-2'']"
    by (simp add: four_levels_def sample_violation_def sortedViolations_def Array_sort_def by_direction_def)
  have h3: "map severity low_critical_high_rows = [LOW, CRITICAL, HIGH]"
    by (simp add: low_critical_high_rows_def sample_violation_def)
  have ids3: "map violation_id (sortedViolations ascii_lower Severity Desc low_critical_high_rows) = [''v-2'', ''v-3'', ''v-1'']"
    by (simp add: low_critical_high_rows_def sample_violation_def sortedViolations_def Array_sort_def
        by_direction_def)
  from h ids h3 ids3 severity_descending [of ascii_lower four_levels]
    severity_descending [of ascii_lower low_critical_high_rows]
  show ?thesis by simp
qed








text \<open>A timestamp that does not parse is \<^verbatim>\<open>NaN\<close>, which ties with every key.\<close>

lemma unparsed_ties:
  "detected_at a = Invalid_Date \<Longrightarrow> compareFn lc Detected_at dir a b = 0"
  by (simp add: by_direction_def)





text \<open>
  Claim C10. The sort works on a fresh copy: the sorted array is a new reference, it holds a
  permutation of the rows of the input array, and every array that was in the store before,
  the input among them, is as it was.
\<close>

theorem sort_copies_and_permutes:
  "violations < length h \<Longrightarrow>
     (case sortedViolations_store lc f dir violations h of
        None \<Rightarrow> False
      | Some (copy, h') \<Rightarrow>
          copy \<noteq> violations \<and> copy < length h'
          \<and> h' ! copy = sortedViolations lc f dir (h ! violations)
          \<and> mset (h' ! copy) = mset (h ! violations)
          \<and> take (length h) h' = h)"
  by (simp add: sortedViolations_store_def spread_def sort_in_place_def sortedViolations_def
      mset_Array_sort nth_append)

text \<open>A store holding one array of three rows, sorted by severity.\<close>

theorem sort_copies_and_permutes_witness:
  "(0::nat) < length [three_policies]
   \<and> sortedViolations_store ascii_lower Severity Desc 0 [three_policies]
       = Some (1, [three_policies, sortedViolations ascii_lower Severity Desc three_policies])
   \<and> map violation_id (sortedViolations ascii_lower Severity Desc three_policies) = [''v-2'', ''v-3'', ''v-1'']"
proof -
  have ids: "map violation_id (sortedViolations ascii_lower Severity Desc three_policies) = [''v-2'', ''v-3'', ''v-1'']"
    by (simp add: three_policies_def sample_violation_def sortedViolations_def Array_sort_def
        by_direction_def)
  have "(0::nat) < length [three_policies]" by simp
  from sort_copies_and_permutes [OF this, of ascii_lower Severity Desc] ids show ?thesis
    by (auto simp: sortedViolations_store_def spread_def sort_in_place_def sortedViolations_def)
qed







text \<open>
  Claim C4. A row shows the status control exactly when its status is OPEN; the values the
  control can send to the update are IN_PROGRESS, RESOLVED and ACCEPTED, and never OPEN; a
  row in another status can send nothing.
\<close>

theorem status_control_gating:
  "(status_control v \<noteq> None \<longleftrightarrow> status v = OPEN)
   \<and> (status v = OPEN \<longrightarrow>
        status_control v = Some ['''', ''IN_PROGRESS'', ''RESOLVED'', ''ACCEPTED'']
        \<and> status_targets v = status_string ` {IN_PROGRESS, RESOLVED, ACCEPTED})
   \<and> (status v \<noteq> OPEN \<longrightarrow> status_targets v = {})
   \<and> status_string OPEN \<notin> status_targets v"
  by (auto simp: status_control_def status_targets_def status_options_def status_onChange_def)

text \<open>An OPEN row and a RESOLVED row.\<close>

theorem status_control_gating_witness:
  "status (sample_violation ''v-1'' ''logging'' LOW (Epoch_ms 0) OPEN) = OPEN
   \<and> status_targets (sample_violation ''v-1'' ''logging'' LOW (Epoch_ms 0) OPEN)
       = {''IN_PROGRESS'', ''RESOLVED'', ''ACCEPTED''}
   \<and> status (sample_violation ''v-1'' ''logging'' LOW (Epoch_ms 0) RESOLVED) \<noteq> OPEN
   \<and> status_control (sample_violation ''v-1'' ''logging'' LOW (Epoch_ms 0) RESOLVED) = None
   \<and> status_targets (sample_violation ''v-1'' ''logging'' LOW (Epoch_ms 0) RESOLVED) = {}"
  using status_control_gating [of "sample_violation ''v-1'' ''logging'' LOW (Epoch_ms 0) OPEN"]
    status_control_gating [of "sample_violation ''v-1'' ''logging'' LOW (Epoch_ms 0) RESOLVED"]
  by (simp add: sample_violation_def)

section \<open>Properties of the API client\<close>

text \<open>
  Claim C5, as amended. When the server answered and the body is neither \<^verbatim>\<open>null\<close> nor
  \<^verbatim>\<open>undefined\<close>, the result is a normalized error whose code is the body's \<^verbatim>\<open>code\<close> when
  that is truthy and \<open>HTTP_\<close> followed by the status otherwise, whose message is the body's
  \<^verbatim>\<open>message\<close> when that is truthy and the client's message otherwise, whose details are
  the body's \<^verbatim>\<open>details\<close> and whose request id is the body's \<^verbatim>\<open>request_id\<close> when that is
  truthy and \<open>unknown\<close> otherwise. With no response but a request sent the code is
  \<open>NETWORK_ERROR\<close>; with neither it is \<open>REQUEST_ERROR\<close>.
\<close>

theorem handleApiError_normalizes:
  "(err_response e = Some (st, d) \<and> \<not> nullish d \<longrightarrow>
      (\<exists>err. handleApiError e = Inr err
         \<and> code err = (if truthy (get d (utf16 ''code'')) then get d (utf16 ''code'')
                       else String (utf16 (''HTTP_'' @ show_nat st)))
         \<and> message err = (if truthy (get d (utf16 ''message'')) then get d (utf16 ''message'')
                          else String (err_message e))
         \<and> details err = get d (utf16 ''details'')
         \<and> request_id err = (if truthy (get d (utf16 ''request_id'')) then get d (utf16 ''request_id'')
                             else String (utf16 ''unknown''))))
   \<and> (err_response e = None \<and> err_request e \<longrightarrow>
        handleApiError e = Inr \<lparr>code = String (utf16 ''NETWORK_ERROR''),
                                 message = String (utf16 ''Unable to connect to compliance service''),
                                 details = Undefined, request_id = String (utf16 ''unknown'')\<rparr>)
   \<and> (err_response e = None \<and> \<not> err_request e \<longrightarrow>
        handleApiError e = Inr \<lparr>code = String (utf16 ''REQUEST_ERROR''),
                                 message = String (err_message e),
                                 details = Undefined, request_id = String (utf16 ''unknown'')\<rparr>)"
  by (auto simp: handleApiError_def js_or_def)

text \<open>
  An error response that carries a code and a message, one whose code is a number and whose
  message is empty, a connection failure, and a request that could not be set up.
\<close>

theorem handleApiError_normalizes_witness:
  "err_response coded_error =
     Some (422, Object [(utf16 ''code'', String (utf16 ''INVALID_PROVIDER'')),
                        (utf16 ''message'', String (utf16 ''unknown provider'')),
                        (utf16 ''request_id'', String (utf16 ''req-7''))])
   \<and> handleApiError coded_error =
       Inr \<lparr>code = String (utf16 ''INVALID_PROVIDER''), message = String (utf16 ''unknown provider''),
            details = Undefined, request_id = String (utf16 ''req-7'')\<rparr>
   \<and> err_response numbered_error =
       Some (500, Object [(utf16 ''code'', Number 42), (utf16 ''message'', String [])])
   \<and> handleApiError numbered_error =
       Inr \<lparr>code = Number 42, message = String (utf16 ''Request failed with status code 500''),
            details = Undefined, request_id = String (utf16 ''unknown'')\<rparr>
   \<and> err_response network_down = None \<and> err_request network_down
   \<and> handleApiError network_down =
       Inr \<lparr>code = String (utf16 ''NETWORK_ERROR''),
            message = String (utf16 ''Unable to connect to compliance service''),
            details = Undefined, request_id = String (utf16 ''unknown'')\<rparr>
   \<and> err_response bad_config = None \<and> \<not> err_request bad_config
   \<and> handleApiError bad_config =
       Inr \<lparr>code = String (utf16 ''REQUEST_ERROR''), message = String (utf16 ''Invalid URL''),
            details = Undefined, request_id = String (utf16 ''unknown'')\<rparr>"
proof -
  let ?b = "Object [(utf16 ''code'', String (utf16 ''INVALID_PROVIDER'')),
                    (utf16 ''message'', String (utf16 ''unknown provider'')),
                    (utf16 ''request_id'', String (utf16 ''req-7''))]"
  let ?n = "Object [(utf16 ''code'', Number 42), (utf16 ''message'', String [])]"
  have r: "err_response coded_error = Some (422, ?b)" "\<not> nullish ?b"
    by (simp_all add: coded_error_def)
  have m: "err_response numbered_error = Some (500, ?n)" "\<not> nullish ?n"
    by (simp_all add: numbered_error_def)
  have n: "err_response network_down = None \<and> err_request network_down"
    by (simp add: network_down_def)
  have c: "err_response bad_config = None \<and> \<not> err_request bad_config"
    by (simp add: bad_config_def)
  have gb: "get ?b (utf16 ''code'') = String (utf16 ''INVALID_PROVIDER'')"
    "get ?b (utf16 ''message'') = String (utf16 ''unknown provider'')"
    "get ?b (utf16 ''details'') = Undefined"
    "get ?b (utf16 ''request_id'') = String (utf16 ''req-7'')"
    by code_simp+
  have gn: "get ?n (utf16 ''code'') = Number 42"
    "get ?n (utf16 ''message'') = String []"
    "get ?n (utf16 ''details'') = Undefined"
    "get ?n (utf16 ''request_id'') = Undefined"
    by code_simp+
  have t: "utf16 ''INVALID_PROVIDER'' \<noteq> []" "utf16 ''unknown provider'' \<noteq> []" "utf16 ''req-7'' \<noteq> []"
    by (simp_all add: utf16_def)
  from handleApiError_normalizes [of coded_error 422 ?b] r
  have "\<exists>err. handleApiError coded_error = Inr err
    \<and> code err = String (utf16 ''INVALID_PROVIDER'')
    \<and> message err = String (utf16 ''unknown provider'') \<and> details err = Undefined
    \<and> request_id err = String (utf16 ''req-7'')"
    unfolding gb by (simp add: t del: get.simps)
  then have 1: "handleApiError coded_error =
       Inr \<lparr>code = String (utf16 ''INVALID_PROVIDER''), message = String (utf16 ''unknown provider''),
            details = Undefined, request_id = String (utf16 ''req-7'')\<rparr>"
    by auto
  from handleApiError_normalizes [of numbered_error 500 ?n] m
  have "\<exists>err. handleApiError numbered_error = Inr err
    \<and> code err = Number 42 \<and> message err = String (err_message numbered_error)
    \<and> details err = Undefined \<and> request_id err = String (utf16 ''unknown'')"
    unfolding gn by (simp del: get.simps)
  then have 2: "handleApiError numbered_error =
       Inr \<lparr>code = Number 42, message = String (utf16 ''Request failed with status code 500''),
            details = Undefined, request_id = String (utf16 ''unknown'')\<rparr>"
    by (auto simp: numbered_error_def)
  from handleApiError_normalizes [of bad_config] c
  have 3: "handleApiError bad_config =
       Inr \<lparr>code = String (utf16 ''REQUEST_ERROR''), message = String (utf16 ''Invalid URL''),
            details = Undefined, request_id = String (utf16 ''unknown'')\<rparr>"
    by (simp add: bad_config_def)
  from 1 2 3 r m n c handleApiError_normalizes [of network_down] show ?thesis by blast
qed

text \<open>
  Claim C5 as stated fails for an error body without the two properties, such as the
  \<^verbatim>\<open>{"detail": "Not Found"}\<close> of a 404: the code is made from the status and the message
  is the client's, neither comes from the body.
\<close>

theorem handleApiError_counterexample:
  "err_response fastapi_not_found =
     Some (404, Object [(utf16 ''detail'', String (utf16 ''Not Found''))])
   \<and> handleApiError fastapi_not_found =
       Inr \<lparr>code = String (utf16 ''HTTP_404''),
            message = String (utf16 ''Request failed with status code 404''),
            details = Undefined, request_id = String (utf16 ''unknown'')\<rparr>"
  by code_simp

text \<open>A body that is \<^verbatim>\<open>null\<close> makes the first read throw, in the interceptor and in an
  operation alike.\<close>

lemma null_body_throws:
  "handleApiError \<lparr>err_response = Some (st, Null), err_request = True, err_message = m\<rparr> = Inl TypeError"
  "getScanStatus (\<lambda>r. Inr \<lparr>resp_status = 200, resp_data = Null\<rparr>) scanId = Inl (Inl TypeError)"
  by (simp_all add: handleApiError_def getScanStatus_def apiClient_def response_data_data_def
      property_def)





section \<open>Properties of the scan progress view\<close>

subsection \<open>Progress percentage\<close>



















text \<open>
  Counts as large as \<^verbatim>\<open>2^53\<close> lose their last digits before the division, and a total
  too large for a double is an infinity.
\<close>

lemma large_counts:
  "number (2 ^ 53 + 1) = Finite (2 ^ 53)"
  "number (2 ^ 1024) = Infinity True"
  "progressPercentage
     ((sample_scan running 0 0)\<lparr>scanned_resources := Finite 1, total_resources := Infinity True\<rparr>)
     = Finite 0"
  by code_simp+

subsection \<open>Polling\<close>

lemma armed_mount: "armed (mount s)"
  by (simp add: armed_def mount_def)

lemma armed_call: "armed st \<Longrightarrow> armed (updateScanStatus_call who st)"
  by (simp add: armed_def updateScanStatus_call_def)

lemma armed_settled: "armed st \<Longrightarrow> armed (updateScanStatus_settled cb r st)"
  by (auto simp: armed_def updateScanStatus_settled_def commit_def polling_effect_def
      split: sum.splits)

lemma armed_step: "armed st \<Longrightarrow> step cb st e = Some st' \<Longrightarrow> armed st'"
  by (cases e) (auto simp: armed_call armed_settled split: if_splits)

lemma armed_run: "armed st \<Longrightarrow> run cb st evs = Some st' \<Longrightarrow> armed st'"
proof (induction evs arbitrary: st)
  case Nil
  then show ?case by simp
next
  case (Cons e evs)
  then show ?case
    by (auto split: option.splits dest: armed_step)
qed

lemma run_append:
  "run cb st (xs @ ys) = (case run cb st xs of None \<Rightarrow> None | Some st' \<Rightarrow> run cb st' ys)"
  by (induction xs arbitrary: st) (auto split: option.splits)

text \<open>While the scan on display is not running, a step that is no running response keeps it so
  and adds no automatic poll.\<close>

lemma quiet_step:
  assumes "armed st" "scan_status (scan st) \<noteq> running" "\<not> reports running e"
    and "step cb st e = Some st'"
  shows "scan_status (scan st') \<noteq> running \<and> filter is_poll (actions st') = filter is_poll (actions st)"
proof (cases e)
  case Tick
  with assms show ?thesis by (simp add: armed_def polling_effect_def)
next
  case Click_refresh
  with assms show ?thesis by (auto simp: updateScanStatus_call_def split: if_splits)
next
  case (Settled r)
  with assms show ?thesis
    by (cases r) (auto simp: updateScanStatus_settled_def commit_def split: if_splits)
qed

lemma quiet_run:
  assumes "armed st" "scan_status (scan st) \<noteq> running" "\<not> list_ex (reports running) evs"
    and "run cb st evs = Some st'"
  shows "scan_status (scan st') \<noteq> running \<and> filter is_poll (actions st') = filter is_poll (actions st)"
  using assms
proof (induction evs arbitrary: st)
  case Nil
  then show ?case by simp
next
  case (Cons e evs)
  from Cons.prems obtain st1 where s1: "step cb st e = Some st1" and r1: "run cb st1 evs = Some st'"
    by (auto split: option.splits)
  from Cons.prems have ne: "\<not> reports running e" "\<not> list_ex (reports running) evs" by simp_all
  from quiet_step [OF Cons.prems(1,2) ne(1) s1] armed_step [OF Cons.prems(1) s1]
  have "scan_status (scan st1) \<noteq> running" "filter is_poll (actions st1) = filter is_poll (actions st)"
    "armed st1" by simp_all
  with Cons.IH [OF _ _ ne(2) r1] show ?case by simp
qed

text \<open>
  Claim C8, as amended. In every state the component reaches, the interval is set exactly
  when the scan on display is running, and its period is 5000 ms; while it is running a
  tick sends a status request. Once a response that reports completed or failed has been
  applied there is no interval, a tick cannot happen, and no automatic poll is sent for as
  long as no response that reports running is applied.
\<close>

theorem polling_follows_status:
  assumes "run cb (mount initialScan) evs = Some st"
  shows "interval st = (if scan_status (scan st) = running then Some 5000 else None)
    \<and> (scan_status (scan st) = running \<longrightarrow>
         step cb st Tick = Some (updateScanStatus_call Timer st)
         \<and> actions (updateScanStatus_call Timer st)
             = actions st @ [GetScanStatus Timer (scan_id (scan st))])
    \<and> (\<forall>s st'. scan_status s \<noteq> running \<and> step cb st (Settled (Inr s)) = Some st' \<longrightarrow>
         interval st' = None \<and> step cb st' Tick = None
         \<and> (\<forall>evs' st''. \<not> list_ex (reports running) evs' \<and> run cb st' evs' = Some st'' \<longrightarrow>
               filter is_poll (actions st'') = filter is_poll (actions st')))"
proof -
  have a: "armed st" using armed_run [OF armed_mount assms] .
  have 1: "interval st = (if scan_status (scan st) = running then Some 5000 else None)"
    using a by (simp add: armed_def polling_effect_def)
  have 2: "scan_status (scan st) = running \<longrightarrow>
         step cb st Tick = Some (updateScanStatus_call Timer st)
         \<and> actions (updateScanStatus_call Timer st)
             = actions st @ [GetScanStatus Timer (scan_id (scan st))]"
    using 1 by (simp add: updateScanStatus_call_def)
  have 3: "interval st' = None \<and> step cb st' Tick = None
         \<and> (\<forall>evs' st''. \<not> list_ex (reports running) evs' \<and> run cb st' evs' = Some st'' \<longrightarrow>
               filter is_poll (actions st'') = filter is_poll (actions st'))"
    if h: "scan_status s \<noteq> running" "step cb st (Settled (Inr s)) = Some st'" for s st'
  proof -
    have a': "armed st'" using armed_step [OF a h(2)] .
    have t: "scan_status (scan st') \<noteq> running"
      using h by (auto simp: updateScanStatus_settled_def commit_def split: if_splits)
    with a' have i: "interval st' = None" by (simp add: armed_def polling_effect_def)
    from quiet_run [OF a' t] i show ?thesis by auto
  qed
  from 1 2 3 show ?thesis by blast
qed

text \<open>
  One poll of a running scan, answered with failed; then a click on Refresh, answered with
  failed again.
\<close>

theorem polling_follows_status_witness:
  "run True (mount (sample_scan running 10 200)) [Tick]
     = Some (updateScanStatus_call Timer (mount (sample_scan running 10 200)))
   \<and> scan_status (scan (updateScanStatus_call Timer (mount (sample_scan running 10 200)))) = running
   \<and> interval (updateScanStatus_call Timer (mount (sample_scan running 10 200))) = Some 5000
   \<and> scan_status (sample_scan failed 10 200) \<noteq> running
   \<and> step True (updateScanStatus_call Timer (mount (sample_scan running 10 200)))
         (Settled (Inr (sample_scan failed 10 200)))
       = Some (updateScanStatus_settled True (Inr (sample_scan failed 10 200))
                (updateScanStatus_call Timer (mount (sample_scan running 10 200))))
   \<and> step True (updateScanStatus_settled True (Inr (sample_scan failed 10 200))
                (updateScanStatus_call Timer (mount (sample_scan running 10 200)))) Tick = None
   \<and> \<not> list_ex (reports running) [Click_refresh, Settled (Inr (sample_scan failed 10 200))]
   \<and> map_option (\<lambda>st. filter is_poll (actions st))
         (run True (updateScanStatus_settled True (Inr (sample_scan failed 10 200))
                     (updateScanStatus_call Timer (mount (sample_scan running 10 200))))
            [Click_refresh, Settled (Inr (sample_scan failed 10 200))])
       = Some [GetScanStatus Timer ''scan-1'']"
proof -
  let ?st = "updateScanStatus_call Timer (mount (sample_scan running 10 200))"
  let ?st' = "updateScanStatus_settled True (Inr (sample_scan failed 10 200)) ?st"
  let ?evs = "[Click_refresh, Settled (Inr (sample_scan failed 10 200))]"
  have r: "run True (mount (sample_scan running 10 200)) [Tick] = Some ?st"
    by (simp add: mount_def polling_effect_def sample_scan_def)
  have u: "scan_status (scan ?st) = running"
    by (simp add: updateScanStatus_call_def mount_def sample_scan_def)
  have s: "scan_status (sample_scan failed 10 200) \<noteq> running"
    by (simp add: sample_scan_def)
  have t: "step True ?st (Settled (Inr (sample_scan failed 10 200))) = Some ?st'"
    by (simp add: updateScanStatus_call_def)
  have q: "\<not> list_ex (reports running) ?evs"
    by (simp add: sample_scan_def)
  have p: "filter is_poll (actions ?st') = [GetScanStatus Timer ''scan-1'']"
    by (simp add: updateScanStatus_settled_def updateScanStatus_call_def commit_def mount_def
        sample_scan_def)
  obtain st'' where f: "run True ?st' ?evs = Some st''"
    by (simp add: updateScanStatus_settled_def updateScanStatus_call_def commit_def mount_def
        sample_scan_def polling_effect_def)
  from polling_follows_status [OF r] u have i: "interval ?st = Some 5000"
    by simp
  from polling_follows_status [OF r] s t have n: "step True ?st' Tick = None"
    by blast
  from polling_follows_status [OF r] s t q f
  have "filter is_poll (actions st'') = filter is_poll (actions ?st')"
    by blast
  with f p have "map_option (\<lambda>st. filter is_poll (actions st)) (run True ?st' ?evs)
      = Some [GetScanStatus Timer ''scan-1'']"
    by simp
  with r u i s t n q show ?thesis by blast
qed

text \<open>
  Claim C8 as stated fails when responses arrive out of order. Two polls are pending; one is
  answered with completed, which stops the interval; then the late answer to the other,
  still reporting running, is applied, the effect sets the interval again, and a third
  automatic poll is sent.
\<close>

theorem polling_counterexample:
  "map_option actions
     (run True (mount (sample_scan running 10 200))
        [Tick, Tick, Settled (Inr (sample_scan completed 200 200)),
         Settled (Inr (sample_scan running 10 200)), Tick])
   = Some [GetScanStatus Timer ''scan-1'', GetScanStatus Timer ''scan-1'', OnScanComplete,
           GetScanStatus Timer ''scan-1'']"
  by (simp add: mount_def polling_effect_def sample_scan_def updateScanStatus_call_def
      updateScanStatus_settled_def commit_def)

lemma completes_step:
  "step cb st e = Some st' \<Longrightarrow>
     length (filter ((=) OnScanComplete) (actions st'))
       = length (filter ((=) OnScanComplete) (actions st)) + (if cb \<and> reports completed e then 1 else 0)"
proof (cases e)
  case Tick
  then show "step cb st e = Some st' \<Longrightarrow> ?thesis"
    by (auto simp: updateScanStatus_call_def split: if_splits)
next
  case Click_refresh
  then show "step cb st e = Some st' \<Longrightarrow> ?thesis"
    by (auto simp: updateScanStatus_call_def split: if_splits)
next
  case (Settled r)
  then show "step cb st e = Some st' \<Longrightarrow> ?thesis"
    by (cases r) (auto simp: updateScanStatus_settled_def commit_def split: if_splits)
qed

text \<open>
  Claim C9, as amended. Along any run, the callback is called once for every response that
  reports completed when the parent passed one, and never otherwise: not for a response
  that reports running or failed, not for a rejected request, not by a tick or a click.
\<close>

theorem callback_once_per_completed_response:
  "run cb st evs = Some st' \<Longrightarrow>
     length (filter ((=) OnScanComplete) (actions st'))
       = length (filter ((=) OnScanComplete) (actions st))
         + (if cb then length (filter (reports completed) evs) else 0)"
proof (induction evs arbitrary: st)
  case Nil
  then show ?case by simp
next
  case (Cons e evs)
  from Cons.prems obtain st1 where s1: "step cb st e = Some st1" and r1: "run cb st1 evs = Some st'"
    by (auto split: option.splits)
  from completes_step [OF s1] Cons.IH [OF r1] show ?case by simp
qed

text \<open>One poll of a running scan, answered with completed: one call.\<close>

theorem callback_once_per_completed_response_witness:
  "run True (mount (sample_scan running 10 200))
     [Tick, Settled (Inr (sample_scan completed 200 200))]
     = Some (updateScanStatus_settled True (Inr (sample_scan completed 200 200))
              (updateScanStatus_call Timer (mount (sample_scan running 10 200))))
   \<and> length (filter ((=) OnScanComplete)
        (actions (updateScanStatus_settled True (Inr (sample_scan completed 200 200))
              (updateScanStatus_call Timer (mount (sample_scan running 10 200)))))) = 1"
proof -
  let ?st' = "updateScanStatus_settled True (Inr (sample_scan completed 200 200))
              (updateScanStatus_call Timer (mount (sample_scan running 10 200)))"
  have r: "run True (mount (sample_scan running 10 200))
     [Tick, Settled (Inr (sample_scan completed 200 200))] = Some ?st'"
    by (simp add: mount_def polling_effect_def sample_scan_def updateScanStatus_call_def)
  have c: "scan_status (sample_scan completed 200 200) = completed"
    by (simp add: sample_scan_def)
  have "length (filter ((=) OnScanComplete) (actions ?st')) = 1"
    using callback_once_per_completed_response [OF r] c by (simp add: mount_def)
  with r show ?thesis by blast
qed

text \<open>
  Claim C9 as stated fails: after the response that completes the scan, a click on Refresh
  fetches the status again, the response reports completed again, and the callback is called
  a second time.
\<close>

theorem callback_counterexample:
  "map_option actions
     (run True (mount (sample_scan running 10 200))
        [Tick, Settled (Inr (sample_scan completed 200 200)),
         Click_refresh, Settled (Inr (sample_scan completed 200 200))])
   = Some [GetScanStatus Timer ''scan-1'', OnScanComplete,
           GetScanStatus Button ''scan-1'', OnScanComplete]"
  by (simp add: mount_def polling_effect_def sample_scan_def updateScanStatus_call_def
      updateScanStatus_settled_def commit_def)


end
